theory Spec2Isabelle
  imports Main "HOL-Library.AList"
begin

text \<open>
  A model of the scheduling core of the task-scheduler service: the scheduler manager
  with its map of \<^verbatim>\<open>node-cron\<close> tasks (\<^verbatim>\<open>scheduler-manager.js\<close>), the discovery
  loop (\<^verbatim>\<open>job-discovery.js\<close>), the job executor (\<^verbatim>\<open>job-executor.js\<close>), and the
  job service, repository and model they write through. Exceptions are values of a
  sum type, the objects the code mutates are states passed in and returned, and every
  \<^verbatim>\<open>new Date()\<close> is an argument.
\<close>

section \<open>Data model\<close>

text \<open>
  Instants are JavaScript \<^verbatim>\<open>Date\<close> values, counted in milliseconds since the epoch.
  Job ids are the strings produced by \<^verbatim>\<open>job._id.toString()\<close>.
\<close>

type_synonym instant = nat
type_synonym job_id = string

text \<open>
  The \<^verbatim>\<open>status\<close> field of the job schema:
  \<^verbatim>\<open>enum: ['active', 'paused', 'completed', 'failed']\<close>.
\<close>

datatype job_status = Active | Paused | Completed | Failed

text \<open>
  A job document. \<open>jid\<close> is the field \<^verbatim>\<open>_id\<close> and \<open>job_type\<close> the field
  \<^verbatim>\<open>type\<close>. The fields \<^verbatim>\<open>description\<close>, \<^verbatim>\<open>data\<close>, \<^verbatim>\<open>createdAt\<close>
  and \<^verbatim>\<open>updatedAt\<close> are never read by the scheduling code and are left out.
\<close>

record job =
  jid :: job_id
  name :: string
  cronSchedule :: string
  job_type :: string
  status :: job_status
  lastRun :: "instant option"
  nextRun :: "instant option"

text \<open>
  Exceptions of the program, as values: \<^verbatim>\<open>new Error('Job not found')\<close> of the
  repository, an error thrown by \<^verbatim>\<open>cron-parser\<close> or \<^verbatim>\<open>node-cron\<close> on an
  expression they reject (with the library's message), the error
  \<^verbatim>\<open>calculateNextRunTime\<close> throws in its place, and an error thrown by a
  type-specific handler.
\<close>

datatype error =
    JobNotFound
  | InvalidCron string
  | NextRunFailed string string
  | HandlerError string

subsection \<open>The cron libraries\<close>

text \<open>
  \<^verbatim>\<open>cron-parser\<close> and \<^verbatim>\<open>node-cron\<close> are third-party packages; their code is not
  part of the repository, so the program is modelled over any behaviour of theirs:
  \<^item> \<open>cronParser_next lib expr seconds now\<close> is
    \<^verbatim>\<open>cronParser.parseExpression(expr, options).next().toDate()\<close> evaluated at the
    current date \<open>now\<close>, where \<open>seconds\<close> is the \<^verbatim>\<open>seconds\<close> entry of the
    options object (\<open>None\<close> when the call passes no options); it throws or returns
    an instant;
  \<^item> \<open>nodeCron_accepts lib expr\<close> says whether \<^verbatim>\<open>cron.schedule(expr, ...)\<close>
    creates a task rather than throwing on the expression.
\<close>

record cron_lib =
  cronParser_next :: "string \<Rightarrow> bool option \<Rightarrow> instant \<Rightarrow> error + instant"
  nodeCron_accepts :: "string \<Rightarrow> bool"

text \<open>\<^verbatim>\<open>cronSchedule.split(' ').length === 6\<close>: the string has exactly five spaces.\<close>

definition six_fields :: "string \<Rightarrow> bool" where
  "six_fields expr \<longleftrightarrow> length (filter (\<lambda>c. c = CHR '' '') expr) + 1 = 6"

text \<open>
  The scheduler manager exists in two revisions that differ, inside \<^verbatim>\<open>scheduleJob\<close>,
  only in the options handed to the parser (and in the executor method the timer
  callback awaits): \<^verbatim>\<open>scheduler-manager.js\<close> calls
  \<^verbatim>\<open>cronParser.parseExpression(job.cronSchedule)\<close>, the later revision passes
  \<^verbatim>\<open>{ seconds: job.cronSchedule.split(' ').length === 6 }\<close>.
\<close>

datatype revision = PlainParse | SecondsOption

definition parse_options :: "revision \<Rightarrow> string \<Rightarrow> bool option" where
  "parse_options rv expr =
     (case rv of PlainParse \<Rightarrow> None | SecondsOption \<Rightarrow> Some (six_fields expr))"

section \<open>Timer Registry: the scheduler manager\<close>

text \<open>
  A \<^verbatim>\<open>node-cron\<close> task object. \<^verbatim>\<open>cron.schedule(expr, callback, {scheduled: true})\<close>
  creates one that is running; \<^verbatim>\<open>task.stop()\<close> ends it. The callback is a closure
  over the job it was created for.
\<close>

record task =
  task_job :: job
  task_expr :: string
  running :: bool

text \<open>The state of \<^verbatim>\<open>JobDiscovery\<close>: \<^verbatim>\<open>isRunning\<close> and \<^verbatim>\<open>intervalId\<close>.\<close>

record job_discovery =
  isRunning :: bool
  intervalId :: "nat option"

text \<open>
  The state of \<^verbatim>\<open>SchedulerManager\<close>. \<open>scheduledTasks\<close> is the JavaScript
  \<^verbatim>\<open>Map\<close> from job id to task, in insertion order; its values are references, here
  indices into \<open>tasks\<close>, the task objects created so far (a task that was removed from
  the map still exists, and would still fire if it had not been stopped).
\<close>

record scheduler =
  scheduledTasks :: "(job_id \<times> nat) list"
  tasks :: "task list"
  isShuttingDown :: bool
  jobDiscovery :: job_discovery

text \<open>The constructor.\<close>

definition new_SchedulerManager :: scheduler where
  "new_SchedulerManager =
     \<lparr>scheduledTasks = [], tasks = [], isShuttingDown = False,
      jobDiscovery = \<lparr>isRunning = False, intervalId = None\<rparr>\<rparr>"

text \<open>\<^verbatim>\<open>task.stop()\<close> on the task object a reference points to.\<close>

definition task_stop :: "nat \<Rightarrow> task list \<Rightarrow> task list" where
  "task_stop h ts = (if h < length ts then ts[h := (ts ! h)\<lparr>running := False\<rparr>] else ts)"

text \<open>\<^verbatim>\<open>getScheduledJobIds\<close> and \<^verbatim>\<open>getScheduledJobCount\<close>.\<close>

definition getScheduledJobIds :: "scheduler \<Rightarrow> job_id list" where
  "getScheduledJobIds s = map fst (scheduledTasks s)"

definition getScheduledJobCount :: "scheduler \<Rightarrow> nat" where
  "getScheduledJobCount s = length (scheduledTasks s)"

text \<open>
  \<^verbatim>\<open>unscheduleJob(jobId)\<close>: if the map has the id, stop its task and delete the entry.
  No statement of it can throw.
\<close>

definition unscheduleJob :: "scheduler \<Rightarrow> job_id \<Rightarrow> scheduler" where
  "unscheduleJob s jobId =
     (case map_of (scheduledTasks s) jobId of
        None \<Rightarrow> s
      | Some h \<Rightarrow> s\<lparr>tasks := task_stop h (tasks s),
                    scheduledTasks := AList.delete jobId (scheduledTasks s)\<rparr>)"

text \<open>What a call of \<^verbatim>\<open>scheduleJob\<close> did, as its log line tells.\<close>

datatype schedule_outcome =
    SkippedShuttingDown
  | SkippedNotActive
  | Scheduled instant
  | FailedToSchedule error

text \<open>
  The body of the \<^verbatim>\<open>try\<close> block of \<^verbatim>\<open>scheduleJob\<close>: parse the expression and
  take the next date (may throw), create the task (may throw), store it in the map.
\<close>

definition scheduleJob_try ::
  "revision \<Rightarrow> cron_lib \<Rightarrow> instant \<Rightarrow> scheduler \<Rightarrow> job \<Rightarrow> error + (instant \<times> scheduler)" where
  "scheduleJob_try rv lib now s job =
     (case cronParser_next lib (cronSchedule job) (parse_options rv (cronSchedule job)) now of
        Inl e \<Rightarrow> Inl e
      | Inr nextRunTime \<Rightarrow>
          if \<not> nodeCron_accepts lib (cronSchedule job) then Inl (InvalidCron (cronSchedule job))
          else
            let h = length (tasks s);
                t = \<lparr>task_job = job, task_expr = cronSchedule job, running = True\<rparr>
            in Inr (nextRunTime,
                    s\<lparr>tasks := tasks s @ [t],
                      scheduledTasks := AList.update (jid job) h (scheduledTasks s)\<rparr>))"

text \<open>
  \<^verbatim>\<open>scheduleJob(job)\<close>. The \<^verbatim>\<open>catch\<close> block logs and does not rethrow, so the
  result is \<open>Inr\<close> on every path; the sum type keeps that visible to the callers.
\<close>

definition scheduleJob ::
  "revision \<Rightarrow> cron_lib \<Rightarrow> instant \<Rightarrow> scheduler \<Rightarrow> job \<Rightarrow> error + (schedule_outcome \<times> scheduler)" where
  "scheduleJob rv lib now s job =
     (if isShuttingDown s then Inr (SkippedShuttingDown, s)
      else
        let s1 = unscheduleJob s (jid job)
        in if status job \<noteq> Active then Inr (SkippedNotActive, s1)
           else (case scheduleJob_try rv lib now s1 job of
                   Inl e \<Rightarrow> Inr (FailedToSchedule e, s1)
                 | Inr (nextRunTime, s2) \<Rightarrow> Inr (Scheduled nextRunTime, s2)))"

text \<open>\<^verbatim>\<open>stop()\<close>: stop every task of the map, then clear the map.\<close>

definition stop :: "scheduler \<Rightarrow> scheduler" where
  "stop s =
     s\<lparr>tasks := fold (\<lambda>(jobId, h) ts. task_stop h ts) (scheduledTasks s) (tasks s),
       scheduledTasks := []\<rparr>"

text \<open>\<^verbatim>\<open>JobDiscovery.stop()\<close>: clear the interval and the running flag.\<close>

definition discovery_stop :: "job_discovery \<Rightarrow> job_discovery" where
  "discovery_stop d = d\<lparr>intervalId := None, isRunning := False\<rparr>"

text \<open>
  \<^verbatim>\<open>shutdown()\<close>: set the flag, stop the discovery loop, stop all tasks, then await a
  timeout of 1000 ms. The result carries the delay that was awaited.
\<close>

definition shutdown_grace_ms :: nat where
  "shutdown_grace_ms = 1000"

definition shutdown :: "scheduler \<Rightarrow> scheduler \<times> nat" where
  "shutdown s =
     (let s1 = s\<lparr>isShuttingDown := True\<rparr>;
          s2 = s1\<lparr>jobDiscovery := discovery_stop (jobDiscovery s1)\<rparr>;
          s3 = stop s2
      in (s3, shutdown_grace_ms))"

section \<open>Job Store\<close>

text \<open>
  The collection of job documents, in its natural order. Mongoose and MongoDB are
  outside the repository; the model keeps what the repository code observes of them:
  \<^verbatim>\<open>findById\<close> returns the document with the id or \<^verbatim>\<open>null\<close>, \<^verbatim>\<open>save\<close> and
  \<^verbatim>\<open>findByIdAndUpdate\<close> write one document back under its id, and
  \<^verbatim>\<open>find({ status: 'active' })\<close> filters the collection.
\<close>

type_synonym store = "job list"

definition findById :: "store \<Rightarrow> job_id \<Rightarrow> job option" where
  "findById st i = find (\<lambda>j. jid j = i) st"

fun updateOne :: "job_id \<Rightarrow> (job \<Rightarrow> job) \<Rightarrow> store \<Rightarrow> store" where
  "updateOne i f [] = []"
| "updateOne i f (j # st) = (if jid j = i then f j # st else j # updateOne i f st)"

definition findActiveJobs :: "store \<Rightarrow> job list" where
  "findActiveJobs st = filter (\<lambda>j. status j = Active) st"

text \<open>
  The instance methods of the job model (the revision headed "This is the corrected
  version"); \<open>now\<close> is what \<^verbatim>\<open>new Date()\<close> returns inside the method.
\<close>

definition markCompleted :: "instant \<Rightarrow> job \<Rightarrow> job" where
  "markCompleted now j = j\<lparr>status := Active, lastRun := Some now\<rparr>"

definition markFailed :: "instant \<Rightarrow> job \<Rightarrow> job" where
  "markFailed now j = j\<lparr>status := Failed, lastRun := Some now\<rparr>"

text \<open>
  \<^verbatim>\<open>job-model.js\<close> holds another revision of \<^verbatim>\<open>markFailed\<close>, commented
  "keep it active, just update last run"; it differs in the status only.
\<close>

definition markFailed_keepActive :: "instant \<Rightarrow> job \<Rightarrow> job" where
  "markFailed_keepActive now j = j\<lparr>status := Active, lastRun := Some now\<rparr>"

text \<open>
  \<^verbatim>\<open>JobRepository\<close>: each method looks the document up, throws
  \<^verbatim>\<open>Error('Job not found')\<close> when there is none, and rethrows what it catches.
  \<^verbatim>\<open>markFailed\<close> calls the instance method \<^verbatim>\<open>job.markFailed()\<close> of the job
  model it imports; since the repository holds two revisions of that method, it is
  the argument \<open>mf\<close> (\<open>markFailed\<close> or \<open>markFailed_keepActive\<close>).
\<close>

definition JobRepository_markCompleted :: "instant \<Rightarrow> job_id \<Rightarrow> store \<Rightarrow> error + store" where
  "JobRepository_markCompleted now i st =
     (case findById st i of
        None \<Rightarrow> Inl JobNotFound
      | Some j \<Rightarrow> Inr (updateOne i (markCompleted now) st))"

definition JobRepository_markFailed ::
  "(instant \<Rightarrow> job \<Rightarrow> job) \<Rightarrow> instant \<Rightarrow> job_id \<Rightarrow> store \<Rightarrow> error + store" where
  "JobRepository_markFailed mf now i st =
     (case findById st i of
        None \<Rightarrow> Inl JobNotFound
      | Some j \<Rightarrow> Inr (updateOne i (mf now) st))"

definition JobRepository_updateNextRun :: "job_id \<Rightarrow> instant \<Rightarrow> store \<Rightarrow> error + store" where
  "JobRepository_updateNextRun i t st =
     (case findById st i of
        None \<Rightarrow> Inl JobNotFound
      | Some j \<Rightarrow> Inr (updateOne i (\<lambda>d. d\<lparr>nextRun := Some t\<rparr>) st))"

text \<open>
  \<^verbatim>\<open>JobService\<close> delegates to the repository inside
  \<^verbatim>\<open>try { ... } catch (err) { log; throw err }\<close>.
\<close>

definition rethrow :: "error + 'a \<Rightarrow> error + 'a" where
  "rethrow r = (case r of Inl err \<Rightarrow> Inl err | Inr x \<Rightarrow> Inr x)"

definition getActiveJobs :: "store \<Rightarrow> job list" where
  "getActiveJobs st = findActiveJobs st"

definition markJobCompleted :: "instant \<Rightarrow> job_id \<Rightarrow> store \<Rightarrow> error + store" where
  "markJobCompleted now i st = rethrow (JobRepository_markCompleted now i st)"

definition markJobFailed ::
  "(instant \<Rightarrow> job \<Rightarrow> job) \<Rightarrow> instant \<Rightarrow> job_id \<Rightarrow> store \<Rightarrow> error + store" where
  "markJobFailed mf now i st = rethrow (JobRepository_markFailed mf now i st)"

definition updateNextRun :: "job_id \<Rightarrow> instant \<Rightarrow> store \<Rightarrow> error + store" where
  "updateNextRun i t st = rethrow (JobRepository_updateNextRun i t st)"

section \<open>Job Executor\<close>

text \<open>
  \<^verbatim>\<open>JobValidator.calculateNextRunTime(cronSchedule)\<close>: parse with
  \<^verbatim>\<open>{ currentDate: new Date(), seconds: cronSchedule.split(' ').length === 6 }\<close>
  and take the next date; a library error is replaced by an error of its own.
\<close>

definition calculateNextRunTime :: "cron_lib \<Rightarrow> instant \<Rightarrow> string \<Rightarrow> error + instant" where
  "calculateNextRunTime lib now expr =
     (case cronParser_next lib expr (Some (six_fields expr)) now of
        Inl (InvalidCron m) \<Rightarrow> Inl (NextRunFailed expr m)
      | Inl e \<Rightarrow> Inl (NextRunFailed expr [])
      | Inr t \<Rightarrow> Inr t)"

text \<open>
  The type-specific handlers of \<^verbatim>\<open>JobExecutor\<close>. In the repository they log and
  await a short timeout; the executor is modelled over any handlers, which may throw.
\<close>

record handlers =
  sendEmail :: "job \<Rightarrow> error + unit"
  sendReminder :: "job \<Rightarrow> error + unit"
  performGenericTask :: "job \<Rightarrow> error + unit"

definition simulated_handlers :: handlers where
  "simulated_handlers =
     \<lparr>sendEmail = (\<lambda>j. Inr ()), sendReminder = (\<lambda>j. Inr ()), performGenericTask = (\<lambda>j. Inr ())\<rparr>"

text \<open>The \<^verbatim>\<open>switch (job.type)\<close> of \<^verbatim>\<open>execute\<close>.\<close>

definition run_handler :: "handlers \<Rightarrow> job \<Rightarrow> error + unit" where
  "run_handler hs job =
     (if job_type job = ''email'' then sendEmail hs job
      else if job_type job = ''reminder'' then sendReminder hs job
      else performGenericTask hs job)"

text \<open>
  The clock readings of one execution: the \<^verbatim>\<open>new Date()\<close> of
  \<^verbatim>\<open>calculateNextRunTime\<close>, of \<^verbatim>\<open>markCompleted\<close> and of \<^verbatim>\<open>markFailed\<close>.
\<close>

record exec_clock =
  t_calc :: instant
  t_completed :: instant
  t_failed :: instant

text \<open>
  \<^verbatim>\<open>execute(job)\<close>. Inside \<^verbatim>\<open>try\<close>: the handler, the next run time,
  \<^verbatim>\<open>markJobCompleted\<close>, \<^verbatim>\<open>updateNextRun\<close>. The \<^verbatim>\<open>catch\<close> block awaits
  \<^verbatim>\<open>markJobFailed\<close> on the store as it is at that moment; what that call throws
  leaves \<^verbatim>\<open>execute\<close>. \<open>mf\<close> is the \<^verbatim>\<open>markFailed\<close> of the job model in use.
\<close>

definition execute ::
  "cron_lib \<Rightarrow> handlers \<Rightarrow> (instant \<Rightarrow> job \<Rightarrow> job) \<Rightarrow> exec_clock \<Rightarrow> store \<Rightarrow> job
     \<Rightarrow> error + store" where
  "execute lib hs mf clk st job =
     (case run_handler hs job of
        Inl e \<Rightarrow> markJobFailed mf (t_failed clk) (jid job) st
      | Inr u \<Rightarrow>
          (case calculateNextRunTime lib (t_calc clk) (cronSchedule job) of
             Inl e \<Rightarrow> markJobFailed mf (t_failed clk) (jid job) st
           | Inr nextRunTime \<Rightarrow>
               (case markJobCompleted (t_completed clk) (jid job) st of
                  Inl e \<Rightarrow> markJobFailed mf (t_failed clk) (jid job) st
                | Inr st1 \<Rightarrow>
                    (case updateNextRun (jid job) nextRunTime st1 of
                       Inl e \<Rightarrow> markJobFailed mf (t_failed clk) (jid job) st1
                     | Inr st2 \<Rightarrow> Inr st2))))"





text \<open>
  The callback \<^verbatim>\<open>scheduleJob\<close> hands to \<^verbatim>\<open>cron.schedule\<close>: return at once when
  shutting down, else await the executor (\<^verbatim>\<open>execute\<close> in one revision,
  \<^verbatim>\<open>executeJob\<close> in the other; \<open>exec\<close> stands for either). The scheduler is
  returned to show what the firing did to it.
\<close>

datatype fire_outcome = NotFired | FiringRejected | Executed

definition onFire ::
  "(store \<Rightarrow> job \<Rightarrow> error + store) \<Rightarrow> scheduler \<Rightarrow> store \<Rightarrow> job
     \<Rightarrow> error + (fire_outcome \<times> scheduler \<times> store)" where
  "onFire exec s st job =
     (if isShuttingDown s then Inr (FiringRejected, s, st)
      else (case exec st job of
              Inl e \<Rightarrow> Inl e
            | Inr st' \<Rightarrow> Inr (Executed, s, st')))"

text \<open>A tick of task \<open>h\<close>: \<^verbatim>\<open>node-cron\<close> calls the callback of a running task only.\<close>

definition fire ::
  "(store \<Rightarrow> job \<Rightarrow> error + store) \<Rightarrow> scheduler \<Rightarrow> store \<Rightarrow> nat
     \<Rightarrow> error + (fire_outcome \<times> scheduler \<times> store)" where
  "fire exec s st h =
     (if h < length (tasks s) \<and> running (tasks s ! h)
      then onFire exec s st (task_job (tasks s ! h))
      else Inr (NotFired, s, st))"

section \<open>Discovery Loop and start\<close>

text \<open>\<^verbatim>\<open>new Set(array)\<close>: the elements in order of first occurrence.\<close>

fun new_Set :: "'a list \<Rightarrow> 'a list" where
  "new_Set [] = []"
| "new_Set (x # xs) = x # filter (\<lambda>y. y \<noteq> x) (new_Set xs)"

text \<open>\<^verbatim>\<open>jobs.forEach(job => this.scheduleJob(job))\<close>; an exception would end the loop.\<close>

fun scheduleJobs ::
  "revision \<Rightarrow> cron_lib \<Rightarrow> instant \<Rightarrow> job list \<Rightarrow> scheduler \<Rightarrow> error + scheduler" where
  "scheduleJobs rv lib now [] s = Inr s"
| "scheduleJobs rv lib now (j # js) s =
     (case scheduleJob rv lib now s j of
        Inl e \<Rightarrow> Inl e
      | Inr (outcome, s') \<Rightarrow> scheduleJobs rv lib now js s')"

text \<open>
  \<^verbatim>\<open>discoverAndScheduleJobs()\<close>, one reconciliation pass, synchronous after the
  store has answered: \<open>now\<close> is the clock reading of the pass.
\<close>

definition discoverAndScheduleJobs ::
  "revision \<Rightarrow> cron_lib \<Rightarrow> instant \<Rightarrow> scheduler \<Rightarrow> store \<Rightarrow> error + scheduler" where
  "discoverAndScheduleJobs rv lib now s st =
     (let activeJobs = getActiveJobs st;
          currentJobIds = new_Set (getScheduledJobIds s);
          activeJobIds = new_Set (map jid activeJobs);
          newJobs = filter (\<lambda>j. jid j \<notin> set currentJobIds) activeJobs
      in case scheduleJobs rv lib now newJobs s of
           Inl e \<Rightarrow> Inl e
         | Inr s1 \<Rightarrow>
             let jobsToUnschedule = filter (\<lambda>i. i \<notin> set activeJobIds) currentJobIds
             in Inr (fold (\<lambda>i s'. unscheduleJob s' i) jobsToUnschedule s1))"

text \<open>
  The interval callback of \<^verbatim>\<open>JobDiscovery.start\<close>: nothing when shutting down, else
  one pass whose errors are caught and logged.
\<close>

definition discovery_tick ::
  "revision \<Rightarrow> cron_lib \<Rightarrow> instant \<Rightarrow> scheduler \<Rightarrow> store \<Rightarrow> scheduler" where
  "discovery_tick rv lib now s st =
     (if isShuttingDown s then s
      else (case discoverAndScheduleJobs rv lib now s st of Inl e \<Rightarrow> s | Inr s' \<Rightarrow> s'))"

text \<open>
  \<^verbatim>\<open>JobDiscovery.start()\<close>; \<open>iv\<close> is the handle \<^verbatim>\<open>setInterval\<close> returns.
\<close>

definition discovery_start :: "nat \<Rightarrow> job_discovery \<Rightarrow> job_discovery" where
  "discovery_start iv d = (if isRunning d then d else d\<lparr>isRunning := True, intervalId := Some iv\<rparr>)"

text \<open>\<^verbatim>\<open>SchedulerManager.start()\<close>; its \<^verbatim>\<open>catch\<close> block rethrows.\<close>

definition start ::
  "revision \<Rightarrow> cron_lib \<Rightarrow> instant \<Rightarrow> nat \<Rightarrow> scheduler \<Rightarrow> store \<Rightarrow> error + scheduler" where
  "start rv lib now iv s st =
     (case scheduleJobs rv lib now (getActiveJobs st) s of
        Inl e \<Rightarrow> Inl e
      | Inr s1 \<Rightarrow> Inr (s1\<lparr>jobDiscovery := discovery_start iv (jobDiscovery s1)\<rparr>))"

section \<open>Runs of the scheduler manager\<close>

text \<open>
  The calls that reach a scheduler manager, with their arguments, and the states a
  sequence of them leads to from a given state. \<^verbatim>\<open>scheduleJob\<close> catches what the
  libraries throw, so none of these calls throws; the \<open>Inl\<close> branches below are there
  for the types only. A timer firing is not among the calls: the callback and the
  executor do not write to the scheduler manager.
\<close>

datatype call =
    ScheduleJob job instant
  | UnscheduleJob job_id
  | Stop
  | Shutdown
  | Start store instant nat
  | Discover store instant
  | Tick store instant

definition step :: "revision \<Rightarrow> cron_lib \<Rightarrow> call \<Rightarrow> scheduler \<Rightarrow> scheduler" where
  "step rv lib c s =
     (case c of
        ScheduleJob j now \<Rightarrow>
          (case scheduleJob rv lib now s j of Inl e \<Rightarrow> s | Inr (outcome, s') \<Rightarrow> s')
      | UnscheduleJob i \<Rightarrow> unscheduleJob s i
      | Stop \<Rightarrow> stop s
      | Shutdown \<Rightarrow> fst (shutdown s)
      | Start st now iv \<Rightarrow> (case start rv lib now iv s st of Inl e \<Rightarrow> s | Inr s' \<Rightarrow> s')
      | Discover st now \<Rightarrow>
          (case discoverAndScheduleJobs rv lib now s st of Inl e \<Rightarrow> s | Inr s' \<Rightarrow> s')
      | Tick st now \<Rightarrow> discovery_tick rv lib now s st)"

definition run :: "revision \<Rightarrow> cron_lib \<Rightarrow> call list \<Rightarrow> scheduler \<Rightarrow> scheduler" where
  "run rv lib cs s = fold (step rv lib) cs s"

text \<open>
  The live entries of a job id: the tasks created for it that are still running,
  whether the map still refers to them or not.
\<close>

definition live_entries :: "scheduler \<Rightarrow> job_id \<Rightarrow> nat list" where
  "live_entries s i =
     filter (\<lambda>h. running (tasks s ! h) \<and> jid (task_job (tasks s ! h)) = i) [0..<length (tasks s)]"

text \<open>
  What \<^verbatim>\<open>scheduleJob\<close> needs of an expression to register it at \<open>now\<close>: the parser
  yields a next date and \<^verbatim>\<open>node-cron\<close> accepts it.
\<close>

definition cron_valid :: "revision \<Rightarrow> cron_lib \<Rightarrow> instant \<Rightarrow> string \<Rightarrow> bool" where
  "cron_valid rv lib now expr \<longleftrightarrow>
     (case cronParser_next lib expr (parse_options rv expr) now of
        Inl e \<Rightarrow> False
      | Inr t \<Rightarrow> nodeCron_accepts lib expr)"

text \<open>
  The registry invariant: every map entry refers to a running task of its own job id,
  every running task is referred to by the map under its job id, and once the
  shutting-down flag is set the map is empty.
\<close>

definition registry_inv :: "scheduler \<Rightarrow> bool" where
  "registry_inv s \<longleftrightarrow>
     distinct (map fst (scheduledTasks s)) \<and>
     (\<forall>(i, h) \<in> set (scheduledTasks s).
        h < length (tasks s) \<and> running (tasks s ! h) \<and> jid (task_job (tasks s ! h)) = i) \<and>
     (\<forall>h < length (tasks s).
        running (tasks s ! h) \<longrightarrow> (jid (task_job (tasks s ! h)), h) \<in> set (scheduledTasks s)) \<and>
     (isShuttingDown s \<longrightarrow> scheduledTasks s = [])"

text \<open>
  A stand-in for the two libraries, used to evaluate examples only: both accept
  exactly the expression \<^verbatim>\<open>* * * * *\<close>, whose next date is the next whole minute.
\<close>

definition every_minute_lib :: cron_lib where
  "every_minute_lib =
     \<lparr>cronParser_next =
        (\<lambda>expr seconds now.
           if expr = ''* * * * *'' then Inr (now - now mod 60000 + 60000)
           else Inl (InvalidCron expr)),
      nodeCron_accepts = (\<lambda>expr. expr = ''* * * * *'')\<rparr>"

text \<open>
  The state \<^verbatim>\<open>scheduleJob\<close> reaches when it registers: a new running task for the
  job and the map entry that refers to it.
\<close>

definition install :: "scheduler \<Rightarrow> job \<Rightarrow> scheduler" where
  "install s job =
     s\<lparr>tasks := tasks s @ [\<lparr>task_job = job, task_expr = cronSchedule job, running = True\<rparr>],
       scheduledTasks := AList.update (jid job) (length (tasks s)) (scheduledTasks s)\<rparr>"

subsection \<open>Example data\<close>

definition job_A :: job where
  "job_A = \<lparr>jid = ''a1'', name = ''A'', cronSchedule = ''* * * * *'', job_type = ''email'',
            status = Active, lastRun = None, nextRun = None\<rparr>"

definition job_bad :: job where
  "job_bad = \<lparr>jid = ''b2'', name = ''B'', cronSchedule = ''not-a-cron'', job_type = ''email'',
            status = Active, lastRun = None, nextRun = None\<rparr>"

definition registered_A :: scheduler where
  "registered_A = install new_SchedulerManager job_A"

definition registered_A_twice :: scheduler where
  "registered_A_twice = install (unscheduleJob registered_A ''a1'') job_A"

definition shut_down_A :: scheduler where
  "shut_down_A = fst (shutdown registered_A)"


definition clock_example :: exec_clock where
  "clock_example = \<lparr>t_calc = 61000, t_completed = 61005, t_failed = 61007\<rparr>"



definition job_A_failed :: job where
  "job_A_failed = job_A\<lparr>status := Failed, lastRun := Some 61007\<rparr>"

definition job_C :: job where
  "job_C = \<lparr>jid = ''c3'', name = ''C'', cronSchedule = ''* * * * *'', job_type = ''report'',
            status = Active, lastRun = None, nextRun = None\<rparr>"


section \<open>Properties\<close>

subsection \<open>The registry invariant\<close>

lemma unscheduleJob_absent: "map_of (scheduledTasks s) jobId = None \<Longrightarrow> unscheduleJob s jobId = s"
  by (simp add: unscheduleJob_def)


lemma task_stop_length [simp]: "length (task_stop h ts) = length ts"
  by (simp add: task_stop_def)

lemma task_stop_nth_other: "h' \<noteq> h \<Longrightarrow> task_stop h ts ! h' = ts ! h'"
  by (simp add: task_stop_def)

lemma task_stop_running:
  "h' < length ts \<Longrightarrow> running (task_stop h ts ! h') \<longleftrightarrow> running (ts ! h') \<and> h' \<noteq> h"
  by (auto simp: task_stop_def nth_list_update)

lemma task_stop_job: "h' < length ts \<Longrightarrow> task_job (task_stop h ts ! h') = task_job (ts ! h')"
  by (auto simp: task_stop_def nth_list_update)

lemma unscheduleJob_flag [simp]: "isShuttingDown (unscheduleJob s i) = isShuttingDown s"
  by (simp add: unscheduleJob_def split: option.splits)

lemma unscheduleJob_discovery [simp]: "jobDiscovery (unscheduleJob s i) = jobDiscovery s"
  by (simp add: unscheduleJob_def split: option.splits)

lemma unscheduleJob_map: "scheduledTasks (unscheduleJob s i) = AList.delete i (scheduledTasks s)"
  by (auto simp: unscheduleJob_def map_of_eq_None_iff split: option.splits)

lemma unscheduleJob_length [simp]: "length (tasks (unscheduleJob s i)) = length (tasks s)"
  by (simp add: unscheduleJob_def split: option.splits)

lemma registry_invI:
  assumes "distinct (map fst (scheduledTasks s))"
    and "\<And>k g. (k, g) \<in> set (scheduledTasks s) \<Longrightarrow>
           g < length (tasks s) \<and> running (tasks s ! g) \<and> jid (task_job (tasks s ! g)) = k"
    and "\<And>g. g < length (tasks s) \<Longrightarrow> running (tasks s ! g) \<Longrightarrow>
           (jid (task_job (tasks s ! g)), g) \<in> set (scheduledTasks s)"
    and "isShuttingDown s \<Longrightarrow> scheduledTasks s = []"
  shows "registry_inv s"
  using assms unfolding registry_inv_def by blast

lemma registry_invD:
  assumes "registry_inv s"
  shows "distinct (map fst (scheduledTasks s))"
    and "\<And>k g. (k, g) \<in> set (scheduledTasks s) \<Longrightarrow>
           g < length (tasks s) \<and> running (tasks s ! g) \<and> jid (task_job (tasks s ! g)) = k"
    and "\<And>g. g < length (tasks s) \<Longrightarrow> running (tasks s ! g) \<Longrightarrow>
           (jid (task_job (tasks s ! g)), g) \<in> set (scheduledTasks s)"
    and "isShuttingDown s \<Longrightarrow> scheduledTasks s = []"
  using assms unfolding registry_inv_def by blast+

lemma registry_inv_unscheduleJob:
  assumes "registry_inv s"
  shows "registry_inv (unscheduleJob s i)"
proof (cases "map_of (scheduledTasks s) i")
  case None
  then show ?thesis using assms by (simp add: unscheduleJob_absent)
next
  case (Some h)
  note D = registry_invD[OF assms]
  let ?u = "unscheduleJob s i"
  from Some have ih: "(i, h) \<in> set (scheduledTasks s)" by (rule map_of_SomeD)
  have m: "scheduledTasks ?u = AList.delete i (scheduledTasks s)"
    and t: "tasks ?u = task_stop h (tasks s)"
    using Some by (simp_all add: unscheduleJob_def)
  have other: "g \<noteq> h" if "(k, g) \<in> set (scheduledTasks s)" "k \<noteq> i" for k g
    using D(2)[OF that(1)] D(2)[OF ih] that(2) by auto
  have uniq: "g = h" if "(i, g) \<in> set (scheduledTasks s)" for g
    using D(1) ih that by (meson eq_key_imp_eq_value)
  show ?thesis
  proof (rule registry_invI)
    show "distinct (map fst (scheduledTasks ?u))"
      using D(1) by (simp add: m distinct_delete)
    show "g < length (tasks ?u) \<and> running (tasks ?u ! g) \<and> jid (task_job (tasks ?u ! g)) = k"
      if "(k, g) \<in> set (scheduledTasks ?u)" for k g
    proof -
      from that have kg: "(k, g) \<in> set (scheduledTasks s)" and ki: "k \<noteq> i"
        by (auto simp: m AList.delete_eq)
      with D(2)[OF kg] other[OF kg ki] show ?thesis
        by (simp add: t task_stop_running task_stop_job)
    qed
    show "(jid (task_job (tasks ?u ! g)), g) \<in> set (scheduledTasks ?u)"
      if "g < length (tasks ?u)" "running (tasks ?u ! g)" for g
    proof -
      from that have g: "g < length (tasks s)" and r: "running (tasks s ! g)" and gh: "g \<noteq> h"
        by (auto simp: t task_stop_running)
      from D(3)[OF g r] have e: "(jid (task_job (tasks s ! g)), g) \<in> set (scheduledTasks s)" .
      with uniq gh have "jid (task_job (tasks s ! g)) \<noteq> i" by auto
      with e g show ?thesis by (auto simp: m t AList.delete_eq task_stop_job)
    qed
    show "scheduledTasks ?u = []" if "isShuttingDown ?u"
      using that D(4) by (simp add: m)
  qed
qed

lemma registry_inv_new: "registry_inv new_SchedulerManager"
  by (simp add: registry_inv_def new_SchedulerManager_def)

lemma update_fresh: "k \<notin> fst ` set al \<Longrightarrow> AList.update k v al = al @ [(k, v)]"
  by (induction al) auto

lemma registry_inv_install:
  assumes inv: "registry_inv s" and fresh: "jid job \<notin> fst ` set (scheduledTasks s)"
    and nf: "\<not> isShuttingDown s"
  shows "registry_inv (install s job)"
proof (rule registry_invI)
  note D = registry_invD[OF inv]
  have m: "scheduledTasks (install s job) = scheduledTasks s @ [(jid job, length (tasks s))]"
    using fresh by (simp add: install_def update_fresh)
  have t: "tasks (install s job) =
      tasks s @ [\<lparr>task_job = job, task_expr = cronSchedule job, running = True\<rparr>]"
    by (simp add: install_def)
  show "distinct (map fst (scheduledTasks (install s job)))"
    using D(1) fresh by (simp add: m)
  show "g < length (tasks (install s job)) \<and> running (tasks (install s job) ! g) \<and>
        jid (task_job (tasks (install s job) ! g)) = k"
    if "(k, g) \<in> set (scheduledTasks (install s job))" for k g
    using that D(2)[of k g] by (auto simp: m t nth_append)
  show "(jid (task_job (tasks (install s job) ! g)), g) \<in> set (scheduledTasks (install s job))"
    if "g < length (tasks (install s job))" "running (tasks (install s job) ! g)" for g
    using that D(3)[of g] by (auto simp: m t nth_append less_Suc_eq)
  show "scheduledTasks (install s job) = []" if "isShuttingDown (install s job)"
    using that nf by (simp add: install_def)
qed

lemma scheduleJob_shutting_down:
  "isShuttingDown s \<Longrightarrow> scheduleJob rv lib now s job = Inr (SkippedShuttingDown, s)"
  by (simp add: scheduleJob_def)

lemma scheduleJob_not_active:
  "\<not> isShuttingDown s \<Longrightarrow> status job \<noteq> Active \<Longrightarrow>
   scheduleJob rv lib now s job = Inr (SkippedNotActive, unscheduleJob s (jid job))"
  by (simp add: scheduleJob_def)

lemma scheduleJob_invalid:
  "\<not> isShuttingDown s \<Longrightarrow> status job = Active \<Longrightarrow> \<not> cron_valid rv lib now (cronSchedule job) \<Longrightarrow>
   \<exists>e. scheduleJob rv lib now s job = Inr (FailedToSchedule e, unscheduleJob s (jid job))"
  by (auto simp: scheduleJob_def scheduleJob_try_def cron_valid_def Let_def split: sum.splits)

lemma scheduleJob_valid:
  "\<not> isShuttingDown s \<Longrightarrow> status job = Active \<Longrightarrow> cron_valid rv lib now (cronSchedule job) \<Longrightarrow>
   \<exists>t. scheduleJob rv lib now s job = Inr (Scheduled t, install (unscheduleJob s (jid job)) job)"
  by (auto simp: scheduleJob_def scheduleJob_try_def cron_valid_def Let_def install_def
      split: sum.splits)

lemma scheduleJob_cases:
  obtains "scheduleJob rv lib now s job = Inr (SkippedShuttingDown, s)" "isShuttingDown s"
  | "scheduleJob rv lib now s job = Inr (SkippedNotActive, unscheduleJob s (jid job))"
      "\<not> isShuttingDown s" "status job \<noteq> Active"
  | e where "scheduleJob rv lib now s job = Inr (FailedToSchedule e, unscheduleJob s (jid job))"
      "\<not> isShuttingDown s" "status job = Active" "\<not> cron_valid rv lib now (cronSchedule job)"
  | t where "scheduleJob rv lib now s job = Inr (Scheduled t, install (unscheduleJob s (jid job)) job)"
      "\<not> isShuttingDown s" "status job = Active" "cron_valid rv lib now (cronSchedule job)"
  using scheduleJob_shutting_down scheduleJob_not_active scheduleJob_invalid scheduleJob_valid
  by (metis (full_types))

lemma unscheduleJob_fresh: "i \<notin> fst ` set (scheduledTasks (unscheduleJob s i))"
  by (auto simp: unscheduleJob_map AList.delete_eq)

lemma registry_inv_scheduleJob:
  assumes "registry_inv s" and "scheduleJob rv lib now s job = Inr (out, s')"
  shows "registry_inv s'"
proof (cases rule: scheduleJob_cases[of rv lib now s job])
  case 1
  then show ?thesis using assms by simp
next
  case 2
  then show ?thesis using assms by (auto simp: registry_inv_unscheduleJob)
next
  case (3 e)
  then show ?thesis using assms by (auto simp: registry_inv_unscheduleJob)
next
  case (4 t)
  then have "s' = install (unscheduleJob s (jid job)) job" using assms by simp
  then show ?thesis
    using 4 assms(1) by (simp add: registry_inv_install registry_inv_unscheduleJob unscheduleJob_fresh)
qed

lemma scheduleJob_flag:
  "scheduleJob rv lib now s job = Inr (out, s') \<Longrightarrow> isShuttingDown s' = isShuttingDown s"
  by (cases rule: scheduleJob_cases[of rv lib now s job]) (auto simp: install_def)

lemma scheduleJob_returns: "\<exists>r. scheduleJob rv lib now s job = Inr r"
  by (cases rule: scheduleJob_cases[of rv lib now s job]) auto


lemma fold_task_stop_length [simp]:
  "length (fold (\<lambda>(i, h) ts. task_stop h ts) m ts) = length ts"
  by (induction m arbitrary: ts) (auto simp: case_prod_beta)

lemma fold_task_stop_running:
  "g < length ts \<Longrightarrow>
   running (fold (\<lambda>(i, h) ts. task_stop h ts) m ts ! g) \<longleftrightarrow> running (ts ! g) \<and> g \<notin> snd ` set m"
  by (induction m arbitrary: ts) (auto simp: case_prod_beta task_stop_running)

lemma registry_inv_stop:
  assumes "registry_inv s"
  shows "registry_inv (stop s)"
proof (rule registry_invI)
  note D = registry_invD[OF assms]
  show "distinct (map fst (scheduledTasks (stop s)))" by (simp add: stop_def)
  show "g < length (tasks (stop s)) \<and> running (tasks (stop s) ! g) \<and>
        jid (task_job (tasks (stop s) ! g)) = k"
    if "(k, g) \<in> set (scheduledTasks (stop s))" for k g
    using that by (simp add: stop_def)
  show "(jid (task_job (tasks (stop s) ! g)), g) \<in> set (scheduledTasks (stop s))"
    if "g < length (tasks (stop s))" "running (tasks (stop s) ! g)" for g
  proof -
    from that have g: "g < length (tasks s)" and "running (tasks s ! g)"
      and "g \<notin> snd ` set (scheduledTasks s)"
      by (auto simp: stop_def fold_task_stop_running)
    with D(3)[of g] show ?thesis by force
  qed
  show "scheduledTasks (stop s) = []" if "isShuttingDown (stop s)"
    by (simp add: stop_def)
qed

lemma stop_no_running:
  assumes "registry_inv s" and "g < length (tasks (stop s))"
  shows "\<not> running (tasks (stop s) ! g)"
  using registry_invD(3)[OF registry_inv_stop[OF assms(1)], of g] assms(2)
  by (auto simp: stop_def)

lemma shutdown_eq:
  "fst (shutdown s) = (stop s)\<lparr>isShuttingDown := True, jobDiscovery := discovery_stop (jobDiscovery s)\<rparr>"
  by (simp add: shutdown_def stop_def Let_def)

lemma registry_inv_shutdown:
  assumes "registry_inv s"
  shows "registry_inv (fst (shutdown s))"
proof -
  note D = registry_invD[OF registry_inv_stop[OF assms]]
  have e: "scheduledTasks (stop s) = []" by (simp add: stop_def)
  show ?thesis
    unfolding shutdown_eq
    by (rule registry_invI) (use D(3) e in auto)
qed

lemma registry_inv_scheduleJobs:
  "registry_inv s \<Longrightarrow> scheduleJobs rv lib now js s = Inr s' \<Longrightarrow> registry_inv s'"
proof (induction js arbitrary: s)
  case Nil
  then show ?case by simp
next
  case (Cons j js)
  obtain out s1 where 1: "scheduleJob rv lib now s j = Inr (out, s1)"
    using scheduleJob_returns[of rv lib now s j] by auto
  with Cons.prems have "scheduleJobs rv lib now js s1 = Inr s'" by simp
  moreover have "registry_inv s1" using Cons.prems(1) 1 by (rule registry_inv_scheduleJob)
  ultimately show ?case by (rule Cons.IH[rotated])
qed


lemma registry_inv_fold_unscheduleJob:
  "registry_inv s \<Longrightarrow> registry_inv (fold (\<lambda>i s'. unscheduleJob s' i) is s)"
  by (induction "is" arbitrary: s) (auto simp: registry_inv_unscheduleJob)

lemma distinct_all_equal_length:
  assumes "distinct xs" and "\<And>x y. x \<in> set xs \<Longrightarrow> y \<in> set xs \<Longrightarrow> x = y"
  shows "length xs \<le> 1"
proof (cases xs)
  case Nil
  then show ?thesis by simp
next
  case (Cons x ys)
  show ?thesis
  proof (cases ys)
    case Nil
    with Cons show ?thesis by simp
  next
    case (Cons y zs)
    with \<open>xs = x # ys\<close> assms(1) have "x \<noteq> y" by auto
    moreover have "x = y" using assms(2)[of x y] Cons \<open>xs = x # ys\<close> by simp
    ultimately show ?thesis by simp
  qed
qed

lemma live_entries_le_1:
  assumes "registry_inv s"
  shows "length (live_entries s i) \<le> 1"
proof (rule distinct_all_equal_length)
  note D = registry_invD[OF assms]
  show "distinct (live_entries s i)" by (simp add: live_entries_def)
  show "g = g'" if "g \<in> set (live_entries s i)" "g' \<in> set (live_entries s i)" for g g'
  proof -
    from that have "(i, g) \<in> set (scheduledTasks s)" "(i, g') \<in> set (scheduledTasks s)"
      using D(3)[of g] D(3)[of g'] by (auto simp: live_entries_def)
    with D(1) show ?thesis by (meson eq_key_imp_eq_value)
  qed
qed


lemma registry_inv_discover:
  assumes "registry_inv s" and "discoverAndScheduleJobs rv lib now s st = Inr s'"
  shows "registry_inv s'"
  using assms
  by (auto simp: discoverAndScheduleJobs_def Let_def split: sum.splits
      intro!: registry_inv_fold_unscheduleJob dest: registry_inv_scheduleJobs)

lemma registry_inv_start:
  assumes "registry_inv s" and "start rv lib now iv s st = Inr s'"
  shows "registry_inv s'"
proof -
  from assms(2) obtain s1 where 1: "scheduleJobs rv lib now (getActiveJobs st) s = Inr s1"
    and 2: "s' = s1\<lparr>jobDiscovery := discovery_start iv (jobDiscovery s1)\<rparr>"
    by (auto simp: start_def split: sum.splits)
  have "registry_inv s1" using assms(1) 1 by (rule registry_inv_scheduleJobs)
  then show ?thesis unfolding 2 registry_inv_def by simp
qed

lemma registry_inv_step: "registry_inv s \<Longrightarrow> registry_inv (step rv lib c s)"
  by (cases c)
    (auto simp: step_def discovery_tick_def registry_inv_unscheduleJob registry_inv_stop
      registry_inv_shutdown split: sum.splits
      dest: registry_inv_scheduleJob registry_inv_start registry_inv_discover)

lemma registry_inv_run: "registry_inv s \<Longrightarrow> registry_inv (run rv lib cs s)"
  unfolding run_def by (induction cs arbitrary: s) (auto simp: registry_inv_step)



lemma getScheduledJobIds_unscheduleJob:
  "getScheduledJobIds (unscheduleJob s i) = removeAll i (getScheduledJobIds s)"
  by (simp add: getScheduledJobIds_def unscheduleJob_map delete_keys)

lemma absent_iff: "i \<notin> set (getScheduledJobIds s) \<longleftrightarrow> map_of (scheduledTasks s) i = None"
  by (simp add: getScheduledJobIds_def map_of_eq_None_iff)

lemma registered_A_eval:
  "registered_A = \<lparr>scheduledTasks = [(''a1'', 0)],
      tasks = [\<lparr>task_job = job_A, task_expr = ''* * * * *'', running = True\<rparr>],
      isShuttingDown = False, jobDiscovery = \<lparr>isRunning = False, intervalId = None\<rparr>\<rparr>"
  by (simp add: registered_A_def install_def new_SchedulerManager_def job_A_def)

subsection \<open>Effects of the registry operations\<close>


lemma unscheduleJob_stops:
  "map_of (scheduledTasks s) i = Some h \<Longrightarrow> h < length (tasks s) \<Longrightarrow>
   \<not> running (tasks (unscheduleJob s i) ! h)"
  by (simp add: unscheduleJob_def task_stop_running)

lemma absent_after_unscheduleJob: "i \<notin> set (getScheduledJobIds (unscheduleJob s i))"
  by (simp add: getScheduledJobIds_unscheduleJob)

lemma no_live_entries_if_absent:
  assumes "registry_inv s" and "i \<notin> set (getScheduledJobIds s)"
  shows "live_entries s i = []"
proof -
  have "g \<notin> set (live_entries s i)" for g
  proof
    assume "g \<in> set (live_entries s i)"
    then have "(i, g) \<in> set (scheduledTasks s)"
      using registry_invD(3)[OF assms(1), of g] by (auto simp: live_entries_def)
    then show False using assms(2) by (force simp: getScheduledJobIds_def)
  qed
  then show ?thesis by (cases "live_entries s i") auto
qed



lemma distinct_count_list: "distinct xs \<Longrightarrow> x \<in> set xs \<Longrightarrow> count_list xs x = 1"
  by (induction xs) (auto simp: count_list_0_iff)

lemma install_registered:
  fixes job :: job
  assumes "registry_inv s" and "\<not> isShuttingDown s"
  defines "s1 \<equiv> install (unscheduleJob s (jid job)) job"
  shows "registry_inv s1" and "length (live_entries s1 (jid job)) = 1"
    and "count_list (getScheduledJobIds s1) (jid job) = 1" and "\<not> isShuttingDown s1"
proof -
  let ?u = "unscheduleJob s (jid job)"
  show inv1: "registry_inv s1"
    unfolding s1_def using assms(1,2)
    by (simp add: registry_inv_install registry_inv_unscheduleJob unscheduleJob_fresh)
  have "length (tasks ?u) \<in> set (live_entries s1 (jid job))"
    by (simp add: s1_def live_entries_def install_def nth_append)
  then have "live_entries s1 (jid job) \<noteq> []" by auto
  then have "length (live_entries s1 (jid job)) \<ge> 1" by (cases "live_entries s1 (jid job)") auto
  with live_entries_le_1[OF inv1, of "jid job"]
  show "length (live_entries s1 (jid job)) = 1" by simp
  have "jid job \<in> set (getScheduledJobIds s1)"
    by (simp add: s1_def getScheduledJobIds_def install_def dom_update)
  moreover have "distinct (getScheduledJobIds s1)"
    using registry_invD(1)[OF inv1] by (simp add: getScheduledJobIds_def)
  ultimately show "count_list (getScheduledJobIds s1) (jid job) = 1"
    by (rule distinct_count_list[rotated])
  show "\<not> isShuttingDown s1" using assms(2) by (simp add: s1_def install_def)
qed



lemma scheduleJobs_flag:
  "scheduleJobs rv lib now js s = Inr s' \<Longrightarrow> isShuttingDown s' = isShuttingDown s"
proof (induction js arbitrary: s)
  case Nil
  then show ?case by simp
next
  case (Cons j js)
  obtain out s1 where 1: "scheduleJob rv lib now s j = Inr (out, s1)"
    using scheduleJob_returns[of rv lib now s j] by auto
  with Cons.prems have "scheduleJobs rv lib now js s1 = Inr s'" by simp
  then have "isShuttingDown s' = isShuttingDown s1" by (rule Cons.IH)
  then show ?case using scheduleJob_flag[OF 1] by simp
qed

lemma fold_unscheduleJob_flag [simp]:
  "isShuttingDown (fold (\<lambda>i s'. unscheduleJob s' i) is s) = isShuttingDown s"
  by (induction "is" arbitrary: s) auto

lemma discover_flag:
  "discoverAndScheduleJobs rv lib now s st = Inr s' \<Longrightarrow> isShuttingDown s' = isShuttingDown s"
  by (auto simp: discoverAndScheduleJobs_def Let_def split: sum.splits dest: scheduleJobs_flag)

lemma start_flag:
  "start rv lib now iv s st = Inr s' \<Longrightarrow> isShuttingDown s' = isShuttingDown s"
  by (auto simp: start_def split: sum.splits dest: scheduleJobs_flag)

lemma step_keeps_flag: "isShuttingDown s \<Longrightarrow> isShuttingDown (step rv lib c s)"
  by (cases c)
    (auto simp: step_def discovery_tick_def stop_def shutdown_eq split: sum.splits
      dest: scheduleJob_flag start_flag discover_flag)

lemma run_keeps_flag: "isShuttingDown s \<Longrightarrow> isShuttingDown (run rv lib cs s)"
  unfolding run_def by (induction cs arbitrary: s) (auto simp: step_keeps_flag)

lemma shut_down_quiet:
  assumes "registry_inv t" and "isShuttingDown t"
  shows "getScheduledJobCount t = 0"
    and "h < length (tasks t) \<Longrightarrow> \<not> running (tasks t ! h)"
    and "fire exec t st h = Inr (NotFired, t, st)"
proof -
  have e: "scheduledTasks t = []" using registry_invD(4)[OF assms] .
  then show "getScheduledJobCount t = 0" by (simp add: getScheduledJobCount_def)
  show r: "\<not> running (tasks t ! h)" if "h < length (tasks t)"
    using registry_invD(3)[OF assms(1) that] e by auto
  then show "fire exec t st h = Inr (NotFired, t, st)" by (auto simp: fire_def)
qed


subsection \<open>Evaluation of the examples\<close>


lemma registered_A_twice_eval:
  "registered_A_twice = \<lparr>scheduledTasks = [(''a1'', 1)],
      tasks = [\<lparr>task_job = job_A, task_expr = ''* * * * *'', running = False\<rparr>,
               \<lparr>task_job = job_A, task_expr = ''* * * * *'', running = True\<rparr>],
      isShuttingDown = False, jobDiscovery = \<lparr>isRunning = False, intervalId = None\<rparr>\<rparr>"
  by (simp add: registered_A_twice_def registered_A_eval install_def unscheduleJob_def
      task_stop_def job_A_def)

lemma shut_down_A_eval:
  "shut_down_A = \<lparr>scheduledTasks = [],
      tasks = [\<lparr>task_job = job_A, task_expr = ''* * * * *'', running = False\<rparr>],
      isShuttingDown = True, jobDiscovery = \<lparr>isRunning = False, intervalId = None\<rparr>\<rparr>"
  by (simp add: shut_down_A_def registered_A_eval shutdown_def stop_def Let_def
      task_stop_def discovery_stop_def)

lemma cron_valid_every_minute:
  "cron_valid rv every_minute_lib now expr \<longleftrightarrow> expr = ''* * * * *''"
  by (simp add: cron_valid_def every_minute_lib_def)

lemma scheduleJob_job_A:
  "scheduleJob SecondsOption every_minute_lib 1000 new_SchedulerManager job_A
     = Inr (Scheduled 60000, registered_A)"
  by (simp add: scheduleJob_def scheduleJob_try_def unscheduleJob_def new_SchedulerManager_def
     job_A_def every_minute_lib_def registered_A_def install_def Let_def)

lemma run_job_A:
  "run SecondsOption every_minute_lib [ScheduleJob job_A 1000] new_SchedulerManager = registered_A"
  by (simp add: run_def step_def scheduleJob_job_A)

lemma scheduleJob_job_bad:
  "scheduleJob SecondsOption every_minute_lib 2000 registered_A job_bad
     = Inr (FailedToSchedule (InvalidCron ''not-a-cron''), registered_A)"
  by (simp add: scheduleJob_def scheduleJob_try_def unscheduleJob_def registered_A_eval
      job_bad_def every_minute_lib_def)

lemma scheduleJob_job_A_again:
  "scheduleJob SecondsOption every_minute_lib 2000 registered_A job_A
     = Inr (Scheduled 60000, registered_A_twice)"
  by (simp add: scheduleJob_def scheduleJob_try_def registered_A_twice_def install_def Let_def
      every_minute_lib_def)
    (simp add: registered_A_eval job_A_def)

lemma live_entries_registered_A: "live_entries registered_A ''b2'' = []"
  by (simp add: live_entries_def registered_A_eval job_A_def)

lemma live_entries_registered_A_twice: "live_entries registered_A_twice ''a1'' = [1]"
  by (simp add: live_entries_def registered_A_twice_eval job_A_def upt_rec)

lemma scheduleJob_shut_down_A:
  "scheduleJob SecondsOption every_minute_lib now shut_down_A job_A
     = Inr (SkippedShuttingDown, shut_down_A)"
  by (simp add: scheduleJob_def shut_down_A_eval)

lemma run_nil_new:
  "run SecondsOption every_minute_lib [] new_SchedulerManager = new_SchedulerManager"
  by (simp add: run_def)

lemma run_shut_down_A:
  "run SecondsOption every_minute_lib [ScheduleJob job_A 2000] shut_down_A = shut_down_A"
  by (simp add: run_def step_def scheduleJob_shut_down_A)

lemma shutdown_run_job_A:
  "fst (shutdown (run SecondsOption every_minute_lib [ScheduleJob job_A 1000] new_SchedulerManager))
     = shut_down_A"
  by (simp add: run_job_A shut_down_A_def)

lemma fire_shut_down_A: "fire exec shut_down_A st 0 = Inr (NotFired, shut_down_A, st)"
  by (simp add: fire_def shut_down_A_eval)


subsection \<open>Store and executor\<close>


lemma markFailed_keepActive_eq:
  "markFailed_keepActive now j = (markFailed now j)\<lparr>status := Active\<rparr>"
  by (simp add: markFailed_keepActive_def markFailed_def)

















subsection \<open>Registered ids after a reconciliation pass\<close>


lemma set_new_Set [simp]: "set (new_Set xs) = set xs"
  by (induction xs) auto

lemma ids_unscheduleJob: "set (getScheduledJobIds (unscheduleJob s i)) = set (getScheduledJobIds s) - {i}"
  by (simp add: getScheduledJobIds_unscheduleJob)

lemma ids_install:
  "set (getScheduledJobIds (install s job)) = insert (jid job) (set (getScheduledJobIds s))"
  by (simp add: getScheduledJobIds_def install_def dom_update)

lemma ids_scheduleJobs:
  assumes "\<not> isShuttingDown s"
    and "\<And>j. j \<in> set js \<Longrightarrow> status j = Active \<and> cron_valid rv lib now (cronSchedule j)"
  shows "\<exists>s'. scheduleJobs rv lib now js s = Inr s' \<and> \<not> isShuttingDown s' \<and>
           set (getScheduledJobIds s') = set (getScheduledJobIds s) \<union> jid ` set js"
  using assms
proof (induction js arbitrary: s)
  case Nil
  then show ?case by simp
next
  case (Cons j js)
  let ?s1 = "install (unscheduleJob s (jid j)) j"
  from Cons.prems obtain t where 1: "scheduleJob rv lib now s j = Inr (Scheduled t, ?s1)"
    using scheduleJob_valid[of s j rv lib now] by auto
  have nf: "\<not> isShuttingDown ?s1" using Cons.prems(1) by (simp add: install_def)
  from Cons.IH[OF nf] Cons.prems(2)
  obtain s' where 2: "scheduleJobs rv lib now js ?s1 = Inr s'" "\<not> isShuttingDown s'"
    "set (getScheduledJobIds s') = set (getScheduledJobIds ?s1) \<union> jid ` set js"
    by auto
  have "set (getScheduledJobIds ?s1) = insert (jid j) (set (getScheduledJobIds s))"
    by (auto simp: ids_install ids_unscheduleJob)
  with 1 2 show ?case by auto
qed

lemma ids_fold_unscheduleJob:
  "set (getScheduledJobIds (fold (\<lambda>i s'. unscheduleJob s' i) is s)) = set (getScheduledJobIds s) - set is"
  by (induction "is" arbitrary: s) (auto simp: ids_unscheduleJob)

lemma discover_job_bad:
  "discoverAndScheduleJobs SecondsOption every_minute_lib 1000 new_SchedulerManager [job_bad]
     = Inr new_SchedulerManager"
  by (simp add: discoverAndScheduleJobs_def getActiveJobs_def findActiveJobs_def Let_def
      getScheduledJobIds_def scheduleJob_def scheduleJob_try_def unscheduleJob_def
      every_minute_lib_def job_bad_def new_SchedulerManager_def)


subsection \<open>The registry after a recorded failure\<close>

































subsection \<open>Evaluation of the failure examples\<close>





lemma status_job_C: "status job_C = Active"
  by (simp add: job_C_def)

lemma jid_job_A_failed: "jid job_A_failed = ''a1''"
  by (simp add: job_A_failed_def job_A_def)

lemma status_job_A_failed: "status job_A_failed = Failed"
  by (simp add: job_A_failed_def)



lemma updateOne_job_A_single:
  "updateOne (jid job_A) (markFailed (t_failed clock_example)) [job_A] = [job_A_failed]"
  by (simp add: markFailed_def clock_example_def job_A_failed_def)


lemma findActiveJobs_failed_C: "findActiveJobs [job_A_failed, job_C] = [job_C]"
  by (simp add: findActiveJobs_def status_job_A_failed status_job_C)











section \<open>The claims\<close>

text \<open>
  C9. Cancelling (\<^verbatim>\<open>unscheduleJob\<close>) a job id that is not registered is a no-op:
  the scheduler state, and with it the entry map, is returned unchanged. The function
  has no statement that can throw, so no error is raised.
\<close>

theorem unscheduleJob_unregistered_noop:
  "jobId \<notin> set (getScheduledJobIds s) \<Longrightarrow> unscheduleJob s jobId = s"
  by (simp add: absent_iff unscheduleJob_absent)

theorem unscheduleJob_unregistered_noop_witness:
  "''b2'' \<notin> set (getScheduledJobIds registered_A) \<and> unscheduleJob registered_A ''b2'' = registered_A"
  using unscheduleJob_unregistered_noop[of "''b2''" registered_A]
  by (simp add: registered_A_eval getScheduledJobIds_def)


text \<open>
  C10. When the scheduler is not shutting down and the job's status is not
  \<^verbatim>\<open>active\<close>, \<^verbatim>\<open>scheduleJob(job)\<close> returns normally in the state that
  \<^verbatim>\<open>unscheduleJob(job._id)\<close> produces: the id is no longer registered, the task a
  previous entry referred to has been stopped, and no task has been created. The
  call is an unschedule of the id, not a no-op.
\<close>

theorem scheduleJob_inactive_unschedules:
  "\<not> isShuttingDown s \<Longrightarrow> status job \<noteq> Active \<Longrightarrow>
   scheduleJob rv lib now s job = Inr (SkippedNotActive, unscheduleJob s (jid job)) \<and>
   jid job \<notin> set (getScheduledJobIds (unscheduleJob s (jid job))) \<and>
   length (tasks (unscheduleJob s (jid job))) = length (tasks s) \<and>
   (\<forall>h. map_of (scheduledTasks s) (jid job) = Some h \<and> h < length (tasks s)
      \<longrightarrow> \<not> running (tasks (unscheduleJob s (jid job)) ! h))"
  by (simp add: scheduleJob_not_active absent_after_unscheduleJob unscheduleJob_stops)

theorem scheduleJob_inactive_unschedules_witness:
  "\<not> isShuttingDown registered_A \<and> status (job_A\<lparr>status := Paused\<rparr>) \<noteq> Active \<and>
   map_of (scheduledTasks registered_A) (jid (job_A\<lparr>status := Paused\<rparr>)) = Some 0 \<and>
   running (tasks registered_A ! 0) \<and>
   scheduleJob SecondsOption every_minute_lib 1000 registered_A (job_A\<lparr>status := Paused\<rparr>)
     = Inr (SkippedNotActive, unscheduleJob registered_A ''a1'') \<and>
   getScheduledJobIds (unscheduleJob registered_A ''a1'') = [] \<and>
   \<not> running (tasks (unscheduleJob registered_A ''a1'') ! 0)"
  using scheduleJob_inactive_unschedules[of registered_A "job_A\<lparr>status := Paused\<rparr>"
      SecondsOption every_minute_lib 1000]
  by (simp add: registered_A_eval job_A_def getScheduledJobIds_def unscheduleJob_def task_stop_def)


text \<open>
  C4. In every state the scheduler manager can reach, \<^verbatim>\<open>scheduleJob\<close> of a job
  whose cron expression the parser or \<^verbatim>\<open>node-cron\<close> rejects returns normally, and
  afterwards the job's id is not registered and no running task exists for it. When
  the call gets as far as validating (not shutting down, job active) its outcome is
  the logged failure to schedule.
\<close>

theorem scheduleJob_invalid_cron_registers_nothing:
  assumes "\<not> cron_valid rv lib now (cronSchedule job)"
  shows "\<exists>out s'. scheduleJob rv lib now (run rv lib cs new_SchedulerManager) job = Inr (out, s') \<and>
           jid job \<notin> set (getScheduledJobIds s') \<and>
           live_entries s' (jid job) = [] \<and>
           (\<not> isShuttingDown (run rv lib cs new_SchedulerManager) \<and> status job = Active
              \<longrightarrow> (\<exists>e. out = FailedToSchedule e))"
proof -
  define s where "s = run rv lib cs new_SchedulerManager"
  have inv: "registry_inv s"
    unfolding s_def by (rule registry_inv_run[OF registry_inv_new])
  have "\<exists>out s'. scheduleJob rv lib now s job = Inr (out, s') \<and>
           jid job \<notin> set (getScheduledJobIds s') \<and> registry_inv s' \<and>
           (\<not> isShuttingDown s \<and> status job = Active \<longrightarrow> (\<exists>e. out = FailedToSchedule e))"
  proof (cases rule: scheduleJob_cases[of rv lib now s job])
    case 1
    then show ?thesis
      using inv registry_invD(4)[OF inv] by (auto simp: getScheduledJobIds_def)
  next
    case 2
    then show ?thesis
      using inv by (auto simp: absent_after_unscheduleJob registry_inv_unscheduleJob)
  next
    case (3 e)
    then show ?thesis
      using inv by (auto simp: absent_after_unscheduleJob registry_inv_unscheduleJob)
  next
    case (4 t)
    then show ?thesis using assms by simp
  qed
  then show ?thesis
    unfolding s_def[symmetric] using no_live_entries_if_absent by blast
qed


theorem scheduleJob_invalid_cron_registers_nothing_witness:
  "\<not> cron_valid SecondsOption every_minute_lib 2000 (cronSchedule job_bad) \<and>
   scheduleJob SecondsOption every_minute_lib 2000
     (run SecondsOption every_minute_lib [ScheduleJob job_A 1000] new_SchedulerManager) job_bad
     = Inr (FailedToSchedule (InvalidCron ''not-a-cron''), registered_A) \<and>
   getScheduledJobIds registered_A = [''a1''] \<and>
   live_entries registered_A ''b2'' = []"
  using scheduleJob_invalid_cron_registers_nothing[of SecondsOption every_minute_lib 2000 job_bad
      "[ScheduleJob job_A 1000]"]
  by (simp add: cron_valid_every_minute run_job_A scheduleJob_job_bad live_entries_registered_A
      getScheduledJobIds_def)
    (simp add: job_bad_def registered_A_eval)


text \<open>
  C5. In every state the scheduler manager can reach there is at most one live
  entry (running task) per job id, and the registered ids are pairwise distinct.
  Registering an active job with a valid cron expression twice (scheduler not
  shutting down) leaves exactly one live entry for its id, and the list of
  registered ids contains the id exactly once, after the first and after the second
  call.
\<close>

theorem register_twice_one_live_entry:
  "length (live_entries (run rv lib cs new_SchedulerManager) i) \<le> 1 \<and>
   distinct (getScheduledJobIds (run rv lib cs new_SchedulerManager)) \<and>
   (\<not> isShuttingDown (run rv lib cs new_SchedulerManager) \<and> status job = Active \<and>
    cron_valid rv lib now (cronSchedule job) \<and> cron_valid rv lib now' (cronSchedule job)
    \<longrightarrow> (\<exists>t t' s1 s2.
          scheduleJob rv lib now (run rv lib cs new_SchedulerManager) job = Inr (Scheduled t, s1) \<and>
          scheduleJob rv lib now' s1 job = Inr (Scheduled t', s2) \<and>
          length (live_entries s1 (jid job)) = 1 \<and>
          count_list (getScheduledJobIds s1) (jid job) = 1 \<and>
          length (live_entries s2 (jid job)) = 1 \<and>
          count_list (getScheduledJobIds s2) (jid job) = 1 \<and>
          (\<forall>k. length (live_entries s2 k) \<le> 1)))"
proof -
  define s where "s = run rv lib cs new_SchedulerManager"
  have inv: "registry_inv s"
    unfolding s_def by (rule registry_inv_run[OF registry_inv_new])
  have a: "length (live_entries s i) \<le> 1" by (rule live_entries_le_1[OF inv])
  have b: "distinct (getScheduledJobIds s)"
    using registry_invD(1)[OF inv] by (simp add: getScheduledJobIds_def)
  have c: "\<exists>t t' s1 s2.
          scheduleJob rv lib now s job = Inr (Scheduled t, s1) \<and>
          scheduleJob rv lib now' s1 job = Inr (Scheduled t', s2) \<and>
          length (live_entries s1 (jid job)) = 1 \<and>
          count_list (getScheduledJobIds s1) (jid job) = 1 \<and>
          length (live_entries s2 (jid job)) = 1 \<and>
          count_list (getScheduledJobIds s2) (jid job) = 1 \<and>
          (\<forall>k. length (live_entries s2 k) \<le> 1)"
    if nf: "\<not> isShuttingDown s" and act: "status job = Active"
      and v: "cron_valid rv lib now (cronSchedule job)"
      and v': "cron_valid rv lib now' (cronSchedule job)"
  proof -
    define s1 where "s1 = install (unscheduleJob s (jid job)) job"
    define s2 where "s2 = install (unscheduleJob s1 (jid job)) job"
    obtain t where 1: "scheduleJob rv lib now s job = Inr (Scheduled t, s1)"
      using scheduleJob_valid[OF nf act v] unfolding s1_def by blast
    note r1 = install_registered[OF inv nf, of job, folded s1_def]
    obtain t' where 2: "scheduleJob rv lib now' s1 job = Inr (Scheduled t', s2)"
      using scheduleJob_valid[OF r1(4) act v'] unfolding s2_def by blast
    note r2 = install_registered[OF r1(1) r1(4), of job, folded s2_def]
    show ?thesis
      using 1 2 r1(2,3) r2(2,3) live_entries_le_1[OF r2(1)] by blast
  qed
  show ?thesis
    unfolding s_def[symmetric] using a b c by blast
qed


theorem register_twice_one_live_entry_witness:
  "\<not> isShuttingDown (run SecondsOption every_minute_lib [] new_SchedulerManager) \<and>
   status job_A = Active \<and>
   cron_valid SecondsOption every_minute_lib 1000 (cronSchedule job_A) \<and>
   cron_valid SecondsOption every_minute_lib 2000 (cronSchedule job_A) \<and>
   scheduleJob SecondsOption every_minute_lib 1000
     (run SecondsOption every_minute_lib [] new_SchedulerManager) job_A
     = Inr (Scheduled 60000, registered_A) \<and>
   scheduleJob SecondsOption every_minute_lib 2000 registered_A job_A
     = Inr (Scheduled 60000, registered_A_twice) \<and>
   length (live_entries registered_A_twice (jid job_A)) = 1 \<and>
   count_list (getScheduledJobIds registered_A_twice) (jid job_A) = 1 \<and>
   live_entries registered_A_twice ''a1'' = [1] \<and>
   getScheduledJobIds registered_A_twice = [''a1'']"
proof -
  have h: "\<not> isShuttingDown (run SecondsOption every_minute_lib [] new_SchedulerManager) \<and>
      status job_A = Active \<and>
      cron_valid SecondsOption every_minute_lib 1000 (cronSchedule job_A) \<and>
      cron_valid SecondsOption every_minute_lib 2000 (cronSchedule job_A)"
    by (simp add: run_nil_new cron_valid_every_minute) (simp add: new_SchedulerManager_def job_A_def)
  have e: "scheduleJob SecondsOption every_minute_lib 1000
       (run SecondsOption every_minute_lib [] new_SchedulerManager) job_A
       = Inr (Scheduled 60000, registered_A)"
    by (simp add: run_nil_new scheduleJob_job_A)
  have c: "length (live_entries registered_A_twice (jid job_A)) = 1 \<and>
      count_list (getScheduledJobIds registered_A_twice) (jid job_A) = 1"
    using register_twice_one_live_entry[of SecondsOption every_minute_lib "[]" "''a1''" job_A 1000 2000]
      h e scheduleJob_job_A_again by auto
  have v: "live_entries registered_A_twice ''a1'' = [1] \<and>
      getScheduledJobIds registered_A_twice = [''a1'']"
    by (simp add: live_entries_registered_A_twice) (simp add: getScheduledJobIds_def registered_A_twice_eval)
  show ?thesis using h e c v scheduleJob_job_A_again by blast
qed


text \<open>
  C8. \<^verbatim>\<open>shutdown()\<close>, called in any reachable state, sets the shutting-down flag,
  stops the discovery loop, leaves no map entry (the count is 0) and no running task,
  and awaits a timeout of 1000 ms. In every state reached by further calls the flag
  is still set, the count is still 0, \<^verbatim>\<open>scheduleJob\<close> registers nothing, the timer
  callback returns without calling the executor, no task fires, and a discovery tick
  does nothing.
\<close>

theorem shutdown_rejects_and_cancels:
  "isShuttingDown (fst (shutdown (run rv lib cs new_SchedulerManager))) \<and>
   \<not> isRunning (jobDiscovery (fst (shutdown (run rv lib cs new_SchedulerManager)))) \<and>
   intervalId (jobDiscovery (fst (shutdown (run rv lib cs new_SchedulerManager)))) = None \<and>
   getScheduledJobCount (fst (shutdown (run rv lib cs new_SchedulerManager))) = 0 \<and>
   (\<forall>h < length (tasks (fst (shutdown (run rv lib cs new_SchedulerManager)))).
      \<not> running (tasks (fst (shutdown (run rv lib cs new_SchedulerManager))) ! h)) \<and>
   snd (shutdown (run rv lib cs new_SchedulerManager)) = 1000 \<and>
   (let t = run rv lib cs' (fst (shutdown (run rv lib cs new_SchedulerManager)))
    in isShuttingDown t \<and>
       getScheduledJobCount t = 0 \<and>
       scheduleJob rv lib now t job = Inr (SkippedShuttingDown, t) \<and>
       onFire exec t st job' = Inr (FiringRejected, t, st) \<and>
       fire exec t st h' = Inr (NotFired, t, st) \<and>
       discovery_tick rv lib now t st = t)"
proof -
  define s where "s = run rv lib cs new_SchedulerManager"
  define s' where "s' = fst (shutdown s)"
  define t where "t = run rv lib cs' s'"
  have inv: "registry_inv s"
    unfolding s_def by (rule registry_inv_run[OF registry_inv_new])
  have inv': "registry_inv s'" unfolding s'_def by (rule registry_inv_shutdown[OF inv])
  have f': "isShuttingDown s'" by (simp add: s'_def shutdown_eq)
  have invt: "registry_inv t" unfolding t_def by (rule registry_inv_run[OF inv'])
  have ft: "isShuttingDown t" unfolding t_def by (rule run_keeps_flag[OF f'])
  have d: "\<not> isRunning (jobDiscovery s')" "intervalId (jobDiscovery s') = None"
    by (simp_all add: s'_def shutdown_eq discovery_stop_def)
  have w: "snd (shutdown s) = 1000" by (simp add: shutdown_def Let_def shutdown_grace_ms_def)
  have q: "\<forall>h < length (tasks s'). \<not> running (tasks s' ! h)"
    using shut_down_quiet(2)[OF inv' f'] by blast
  have after: "isShuttingDown t \<and> getScheduledJobCount t = 0 \<and>
       scheduleJob rv lib now t job = Inr (SkippedShuttingDown, t) \<and>
       onFire exec t st job' = Inr (FiringRejected, t, st) \<and>
       fire exec t st h' = Inr (NotFired, t, st) \<and>
       discovery_tick rv lib now t st = t"
    using ft shut_down_quiet(1,3)[OF invt ft]
    by (simp add: scheduleJob_shutting_down onFire_def discovery_tick_def)
  show ?thesis
    unfolding s_def[symmetric] s'_def[symmetric] Let_def t_def[symmetric]
    using f' d shut_down_quiet(1)[OF inv' f'] q w after by blast
qed


theorem shutdown_rejects_and_cancels_witness:
  "fst (shutdown (run SecondsOption every_minute_lib [ScheduleJob job_A 1000] new_SchedulerManager))
     = shut_down_A \<and>
   0 < length (tasks shut_down_A) \<and> \<not> running (tasks shut_down_A ! 0) \<and>
   getScheduledJobCount shut_down_A = 0 \<and>
   run SecondsOption every_minute_lib [ScheduleJob job_A 2000] shut_down_A = shut_down_A \<and>
   scheduleJob SecondsOption every_minute_lib 3000 shut_down_A job_A
     = Inr (SkippedShuttingDown, shut_down_A) \<and>
   fire (execute every_minute_lib simulated_handlers markFailed \<lparr>t_calc = 0, t_completed = 0, t_failed = 0\<rparr>)
     shut_down_A [job_A] 0 = Inr (NotFired, shut_down_A, [job_A])"
proof -
  have h: "0 < length (tasks shut_down_A)" by (simp add: shut_down_A_eval)
  note t = shutdown_rejects_and_cancels[of SecondsOption every_minute_lib "[ScheduleJob job_A 1000]"
      "[ScheduleJob job_A 2000]" 3000 job_A
      "execute every_minute_lib simulated_handlers markFailed \<lparr>t_calc = 0, t_completed = 0, t_failed = 0\<rparr>"
      "[job_A]" job_A 0, unfolded shutdown_run_job_A run_shut_down_A Let_def]
  from t h have "\<not> running (tasks shut_down_A ! 0)" by blast
  with t h show ?thesis
    using shutdown_run_job_A run_shut_down_A by blast
qed



















text \<open>
  C2, as stated, fails: an active job whose cron expression is rejected is logged and
  skipped by \<^verbatim>\<open>scheduleJob\<close>, so after the pass its id is active in the Store but
  not registered.
\<close>

theorem reconcile_skips_invalid_cron_counterexample:
  "status job_bad = Active \<and>
   discoverAndScheduleJobs SecondsOption every_minute_lib 1000 new_SchedulerManager [job_bad]
     = Inr new_SchedulerManager \<and>
   set (getScheduledJobIds new_SchedulerManager) = {} \<and>
   jid ` set (findActiveJobs [job_bad]) = {''b2''} \<and>
   set (getScheduledJobIds new_SchedulerManager) \<noteq> jid ` set (findActiveJobs [job_bad])"
  by (simp add: discover_job_bad)
    (simp add: job_bad_def findActiveJobs_def getScheduledJobIds_def new_SchedulerManager_def)

text \<open>
  C2, amended. If the scheduler is not shutting down and every active job of the
  Store that is not yet registered has a cron expression the parser and
  \<^verbatim>\<open>node-cron\<close> accept, then one pass of \<^verbatim>\<open>discoverAndScheduleJobs\<close> returns
  normally and the set of registered ids afterwards equals the set of ids of the
  active jobs of the Store.
\<close>

theorem reconcile_converges_when_valid:
  assumes "\<not> isShuttingDown s"
    and "\<forall>j \<in> set (findActiveJobs st).
           jid j \<notin> set (getScheduledJobIds s) \<longrightarrow> cron_valid rv lib now (cronSchedule j)"
  shows "\<exists>s'. discoverAndScheduleJobs rv lib now s st = Inr s' \<and>
           set (getScheduledJobIds s') = jid ` set (findActiveJobs st)"
proof -
  define newJobs where
    "newJobs = filter (\<lambda>j. jid j \<notin> set (getScheduledJobIds s)) (findActiveJobs st)"
  have v: "status j = Active \<and> cron_valid rv lib now (cronSchedule j)" if "j \<in> set newJobs" for j
    using that assms(2) by (auto simp: newJobs_def findActiveJobs_def)
  from ids_scheduleJobs[OF assms(1) v]
  obtain s1 where 1: "scheduleJobs rv lib now newJobs s = Inr s1"
    and 2: "set (getScheduledJobIds s1) = set (getScheduledJobIds s) \<union> jid ` set newJobs"
    by blast
  have 3: "discoverAndScheduleJobs rv lib now s st =
      Inr (fold (\<lambda>i s'. unscheduleJob s' i)
        (filter (\<lambda>i. i \<notin> jid ` set (findActiveJobs st)) (new_Set (getScheduledJobIds s))) s1)"
    using 1 by (simp add: discoverAndScheduleJobs_def getActiveJobs_def Let_def newJobs_def)
  have "set (getScheduledJobIds s) \<union> jid ` set newJobs
          - set (filter (\<lambda>i. i \<notin> jid ` set (findActiveJobs st)) (new_Set (getScheduledJobIds s)))
        = jid ` set (findActiveJobs st)"
    by (auto simp: newJobs_def)
  then show ?thesis
    using 2 3 by (simp add: ids_fold_unscheduleJob)
qed


theorem reconcile_converges_when_valid_witness:
  "\<not> isShuttingDown registered_A \<and>
   findActiveJobs [job_A\<lparr>status := Paused\<rparr>, job_C] = [job_C] \<and>
   jid job_C \<notin> set (getScheduledJobIds registered_A) \<and>
   cron_valid SecondsOption every_minute_lib 1000 (cronSchedule job_C) \<and>
   jid ` set (findActiveJobs [job_A\<lparr>status := Paused\<rparr>, job_C]) = {''c3''} \<and>
   set (getScheduledJobIds registered_A) = {''a1''} \<and>
   (\<exists>s'. discoverAndScheduleJobs SecondsOption every_minute_lib 1000 registered_A
            [job_A\<lparr>status := Paused\<rparr>, job_C] = Inr s' \<and>
         set (getScheduledJobIds s') = {''c3''})"
proof -
  have a: "findActiveJobs [job_A\<lparr>status := Paused\<rparr>, job_C] = [job_C]"
    by (simp add: findActiveJobs_def job_C_def)
  have h1: "\<not> isShuttingDown registered_A" by (simp add: registered_A_eval)
  have v: "cron_valid SecondsOption every_minute_lib 1000 (cronSchedule job_C)"
    by (simp add: cron_valid_every_minute) (simp add: job_C_def)
  have r: "set (getScheduledJobIds registered_A) = {''a1''}"
    by (simp add: getScheduledJobIds_def registered_A_eval)
  have n: "jid job_C \<notin> set (getScheduledJobIds registered_A)"
    by (simp add: r) (simp add: job_C_def)
  have h2: "\<forall>j \<in> set (findActiveJobs [job_A\<lparr>status := Paused\<rparr>, job_C]).
      jid j \<notin> set (getScheduledJobIds registered_A)
        \<longrightarrow> cron_valid SecondsOption every_minute_lib 1000 (cronSchedule j)"
    using v by (simp add: a)
  have i: "jid ` set (findActiveJobs [job_A\<lparr>status := Paused\<rparr>, job_C]) = {''c3''}"
    by (simp add: a) (simp add: job_C_def)
  show ?thesis
    using reconcile_converges_when_valid[OF h1 h2] a h1 v n i r by simp
qed

end
